theory Spec2Isabelle
  imports Main "HOL-Library.Sublist" "HOL-Library.AList"
begin

section \<open>Paths\<close>

text \<open>
  A path is the list of its components below the filesystem root (POSIX, absolute and
  normalised): \<open>/a/b\<close> is \<open>[''a'', ''b'']\<close>.  \<open>path.join(dir, item)\<close> with a
  directory entry name \<open>item\<close> is \<open>dir @ [item]\<close>, and \<open>path.basename\<close> of such a
  path is its last component.  Strings are lists of 8-bit characters.
\<close>

type_synonym path = "string list"

fun split_on :: "char \<Rightarrow> string \<Rightarrow> string list" where
  "split_on d [] = [[]]"
| "split_on d (c # cs) =
     (if c = d then [] # split_on d cs
      else (case split_on d cs of [] \<Rightarrow> [[c]] | x # xs \<Rightarrow> (c # x) # xs))"

text \<open>Lexical normalisation, as \<open>path.resolve\<close> and \<open>path.join\<close> do it: empty
  components and \<open>.\<close> are dropped, \<open>..\<close> drops the component before it (and nothing
  at the root).  The accumulator holds the components passed so far, reversed.\<close>

fun normalize_acc :: "string list \<Rightarrow> string list \<Rightarrow> path" where
  "normalize_acc acc [] = rev acc"
| "normalize_acc acc (c # cs) =
     (if c = [] \<or> c = ''.'' then normalize_acc acc cs
      else if c = ''..'' then normalize_acc (tl acc) cs
      else normalize_acc (c # acc) cs)"

definition is_absolute :: "string \<Rightarrow> bool" where
  "is_absolute s = (case s of [] \<Rightarrow> False | c # _ \<Rightarrow> c = CHR ''/'')"

text \<open>\<open>path.resolve(dir, target)\<close> for an absolute \<open>dir\<close>.\<close>

definition path_resolve :: "path \<Rightarrow> string \<Rightarrow> path" where
  "path_resolve dir target =
     (if is_absolute target then normalize_acc [] (split_on CHR ''/'' target)
      else normalize_acc (rev dir) (split_on CHR ''/'' target))"

text \<open>\<open>path.join(dir, name)\<close> for an absolute \<open>dir\<close>: the two are concatenated with a
  separator and normalised, so a leading \<open>/\<close> of \<open>name\<close> does not restart at the root.\<close>

definition path_join :: "path \<Rightarrow> string \<Rightarrow> path" where
  "path_join dir name = normalize_acc (rev dir) (split_on CHR ''/'' name)"

definition basename :: "path \<Rightarrow> string" where
  "basename p = (if p = [] then [] else last p)"

definition dirname :: "path \<Rightarrow> path" where
  "dirname p = butlast p"

fun strip_common :: "path \<Rightarrow> path \<Rightarrow> path \<times> path" where
  "strip_common (a # as) (b # bs) =
     (if a = b then strip_common as bs else (a # as, b # bs))"
| "strip_common as bs = (as, bs)"

fun join_with :: "char \<Rightarrow> string list \<Rightarrow> string" where
  "join_with d [] = []"
| "join_with d [x] = x"
| "join_with d (x # y # ys) = x @ d # join_with d (y # ys)"

text \<open>\<open>path.relative(from, to)\<close> for two absolute normalised paths: one \<open>..\<close> for each
  component of \<open>from\<close> below the common prefix, then the rest of \<open>to\<close>.\<close>

definition path_relative :: "path \<Rightarrow> path \<Rightarrow> string" where
  "path_relative from to =
     (case strip_common from to of
        (f, t) \<Rightarrow> join_with CHR ''/'' (replicate (length f) ''..'' @ t))"

section \<open>The ignore filter\<close>

definition IGNORE_PATTERNS :: "string list" where
  "IGNORE_PATTERNS =
     [''node_modules'', ''.git'', ''.next'', ''.turbo'', ''dist'', ''out'', ''.vercel'',
      ''.cache'', ''.DS_Store'', ''*.env*'', ''package-lock.json'', ''yarn.lock'',
      ''pnpm-lock.yaml'']"

text \<open>\<open>pattern.replace(/\*/g, ".*")\<close>\<close>

fun replace_star :: "string \<Rightarrow> string" where
  "replace_star [] = []"
| "replace_star (c # cs) =
     (if c = CHR ''*'' then CHR ''.'' # CHR ''*'' # replace_star cs else c # replace_star cs)"

text \<open>
  The regular expressions of the language are modelled on the fragment that the
  replacement above produces from patterns made of ordinary characters, \<open>.\<close> and
  \<open>*\<close>: a literal character, \<open>.\<close> (any character but a line terminator) and
  \<open>.*\<close>.  A source text with another metacharacter is outside the fragment
  (\<open>None\<close>).  Line terminators of the 8-bit alphabet are line feed and carriage return.
\<close>

datatype relem = Lit char | AnyChar | AnyStar

definition regex_meta :: "char set" where
  "regex_meta = set [CHR 0x5C, CHR ''^'', CHR ''$'', CHR ''+'', CHR ''?'', CHR ''('', CHR '')'',
                     CHR ''['', CHR '']'', CHR ''{'', CHR ''}'', CHR ''|'', CHR ''*'']"

fun RegExp :: "string \<Rightarrow> relem list option" where
  "RegExp [] = Some []"
| "RegExp (c # cs) =
     (if c = CHR ''.'' then
        (case cs of
           d # ds \<Rightarrow>
             (if d = CHR ''*'' then map_option (Cons AnyStar) (RegExp ds)
              else map_option (Cons AnyChar) (RegExp cs))
         | [] \<Rightarrow> Some [AnyChar])
      else if c \<in> regex_meta then None
      else map_option (Cons (Lit c)) (RegExp cs))"

definition line_terminator :: "char \<Rightarrow> bool" where
  "line_terminator c = (c = CHR 0x0A \<or> c = CHR 0x0D)"

text \<open>Does the expression match a prefix of the string?\<close>

fun match_here :: "relem list \<Rightarrow> string \<Rightarrow> bool" where
  "match_here [] s = True"
| "match_here (Lit c # r) s = (case s of [] \<Rightarrow> False | x # xs \<Rightarrow> x = c \<and> match_here r xs)"
| "match_here (AnyChar # r) s =
     (case s of [] \<Rightarrow> False | x # xs \<Rightarrow> \<not> line_terminator x \<and> match_here r xs)"
| "match_here (AnyStar # r) s =
     (match_here r s \<or>
      (case s of [] \<Rightarrow> False | x # xs \<Rightarrow> \<not> line_terminator x \<and> match_here (AnyStar # r) xs))"

text \<open>\<open>regex.test(s)\<close>: the expression is not anchored, so it may match from any
  position of the string.\<close>

fun regex_test :: "relem list \<Rightarrow> string \<Rightarrow> bool" where
  "regex_test r [] = match_here r []"
| "regex_test r (x # xs) = (match_here r (x # xs) \<or> regex_test r xs)"

text \<open>The loop of \<open>shouldIgnore\<close> over a list of patterns; \<open>None\<close> when it reaches a
  wildcard pattern outside the modelled fragment before any pattern has matched.\<close>

fun shouldIgnore_loop :: "string list \<Rightarrow> string \<Rightarrow> string \<Rightarrow> bool option" where
  "shouldIgnore_loop [] base rel = Some False"
| "shouldIgnore_loop (pattern # ps) base rel =
     (if CHR ''*'' \<in> set pattern then
        (case RegExp (replace_star pattern) of
           None \<Rightarrow> None
         | Some regex \<Rightarrow>
             if regex_test regex base \<or> regex_test regex rel then Some True
             else shouldIgnore_loop ps base rel)
      else if base = pattern \<or> rel = pattern then Some True
      else shouldIgnore_loop ps base rel)"

definition shouldIgnore :: "path \<Rightarrow> string \<Rightarrow> bool" where
  "shouldIgnore filePath relativePath =
     (shouldIgnore_loop IGNORE_PATTERNS (basename filePath) relativePath = Some True)"

section \<open>The filesystem\<close>

text \<open>
  \<open>JSON.parse\<close> yields one of these values.  An object keeps its keys in insertion
  order: assigning an existing key replaces the value in place, assigning a new one
  appends it (\<open>AList.update\<close>), and \<open>delete\<close> removes it (\<open>AList.delete\<close>).
\<close>

datatype json =
    JNull | JBool bool | JNum int | JStr string | JArr "json list" | JObj "(string \<times> json) list"

text \<open>A file holds either a text that \<open>JSON.parse\<close> accepts, given by the value it
  parses to (layout is not modelled), or any other text.\<close>

datatype content = Bytes string | JsonText json

datatype entry = RegularFile content | Directory "string list" | SymbolicLink string

datatype error =
    ENOENT | ENOTDIR | EISDIR | EEXIST | EINVAL | EACCES
  | SyntaxError | TypeError
  | ScaffoldError error
  | TemplateNotFound | RequiredDirMissing string

text \<open>
  The world is one store from paths to entries, looked up by the lexical path (a
  symbolic link in the middle of a path is not followed; the link at the end of a path
  is followed where the operation does so).  A directory carries the names
  \<open>readdir\<close> returns, in that order.  \<open>denied\<close> holds the paths that the operating
  system refuses to create, overwrite or remove.  A primitive that fails leaves the
  world as it was.  The length of a path is not bounded.  The operations below are
  those of the libraries that the program calls (\<open>fs-extra\<close>, \<open>path\<close>), as their
  documentation describes them.
\<close>

record world =
  files :: "path \<rightharpoonup> entry"
  denied :: "path set"

datatype outcome = Returned | Thrown error

definition is_dir :: "entry \<Rightarrow> bool" where
  "is_dir e = (case e of Directory _ \<Rightarrow> True | _ \<Rightarrow> False)"

text \<open>Following the symbolic link at the end of a path, at most \<open>n\<close> links deep.\<close>

fun follow :: "nat \<Rightarrow> (path \<rightharpoonup> entry) \<Rightarrow> path \<Rightarrow> path option" where
  "follow 0 fs p =
     (case fs p of None \<Rightarrow> None | Some (SymbolicLink t) \<Rightarrow> None | Some _ \<Rightarrow> Some p)"
| "follow (Suc n) fs p =
     (case fs p of
        None \<Rightarrow> None
      | Some (SymbolicLink t) \<Rightarrow> follow n fs (path_resolve (dirname p) t)
      | Some _ \<Rightarrow> Some p)"

definition MAXSYMLINKS :: nat where
  "MAXSYMLINKS = 40"

definition fs_pathExists :: "world \<Rightarrow> path \<Rightarrow> bool" where
  "fs_pathExists w p = (follow MAXSYMLINKS (files w) p \<noteq> None)"

definition fs_lstat :: "world \<Rightarrow> path \<Rightarrow> error + entry" where
  "fs_lstat w p = (case files w p of None \<Rightarrow> Inl ENOENT | Some e \<Rightarrow> Inr e)"

definition fs_readlink :: "world \<Rightarrow> path \<Rightarrow> error + string" where
  "fs_readlink w p =
     (case files w p of
        None \<Rightarrow> Inl ENOENT
      | Some (SymbolicLink t) \<Rightarrow> Inr t
      | Some _ \<Rightarrow> Inl EINVAL)"

definition fs_readdir :: "world \<Rightarrow> path \<Rightarrow> error + string list" where
  "fs_readdir w p =
     (case files w p of
        None \<Rightarrow> Inl ENOENT
      | Some (Directory names) \<Rightarrow> Inr names
      | Some _ \<Rightarrow> Inl ENOTDIR)"

text \<open>Creating or replacing the entry at a path enters its name in the parent
  directory; removing a path takes its name out and drops everything below it.\<close>

definition add_name :: "path \<Rightarrow> (path \<rightharpoonup> entry) \<Rightarrow> (path \<rightharpoonup> entry)" where
  "add_name p fs =
     (case fs (dirname p) of
        Some (Directory names) \<Rightarrow>
          if p = [] \<or> basename p \<in> set names then fs
          else fs(dirname p \<mapsto> Directory (names @ [basename p]))
      | _ \<Rightarrow> fs)"

definition put_entry :: "path \<Rightarrow> entry \<Rightarrow> world \<Rightarrow> world" where
  "put_entry p e w = w\<lparr>files := (add_name p (files w))(p \<mapsto> e)\<rparr>"

definition del_name :: "path \<Rightarrow> (path \<rightharpoonup> entry) \<Rightarrow> (path \<rightharpoonup> entry)" where
  "del_name p fs =
     (case fs (dirname p) of
        Some (Directory names) \<Rightarrow>
          if p = [] then fs else fs(dirname p \<mapsto> Directory (removeAll (basename p) names))
      | _ \<Rightarrow> fs)"

definition remove_tree :: "path \<Rightarrow> (path \<rightharpoonup> entry) \<Rightarrow> (path \<rightharpoonup> entry)" where
  "remove_tree p fs = (\<lambda>q. if prefix p q then None else del_name p fs q)"

text \<open>\<open>fs.remove\<close>: recursive, and no error when the path is absent.\<close>

definition fs_remove :: "world \<Rightarrow> path \<Rightarrow> error + world" where
  "fs_remove w p =
     (if files w p = None then Inr w
      else if p \<in> denied w then Inl EACCES
      else Inr (w\<lparr>files := remove_tree p (files w)\<rparr>))"

text \<open>\<open>fs.ensureDir\<close> (\<open>mkdir -p\<close>): walks down from the root and creates what is
  missing.\<close>

fun mkdirs :: "path \<Rightarrow> string list \<Rightarrow> world \<Rightarrow> error + world" where
  "mkdirs done [] w = Inr w"
| "mkdirs done (c # cs) w =
     (case files w (done @ [c]) of
        Some (Directory names) \<Rightarrow> mkdirs (done @ [c]) cs w
      | Some _ \<Rightarrow> Inl ENOTDIR
      | None \<Rightarrow>
          if done @ [c] \<in> denied w then Inl EACCES
          else mkdirs (done @ [c]) cs (put_entry (done @ [c]) (Directory []) w))"

definition fs_ensureDir :: "world \<Rightarrow> path \<Rightarrow> error + world" where
  "fs_ensureDir w p = mkdirs [] p w"

text \<open>
  \<open>fs.copy\<close> of the library, with its defaults (\<open>overwrite\<close>, no \<open>dereference\<close>):
  the source is looked at without following a link.  A regular file replaces a file or
  link at the destination; a symbolic link is copied as a link with the same target
  text, and replaces a link at the destination; a non-directory does not replace a
  directory.  The parent of the destination is created when missing.
\<close>

definition copy_leaf :: "entry \<Rightarrow> path \<Rightarrow> world \<Rightarrow> error + world" where
  "copy_leaf e dst w =
     (case files w dst of
        Some (Directory names) \<Rightarrow> Inl EISDIR
      | d \<Rightarrow>
          (case fs_ensureDir w (dirname dst) of
             Inl err \<Rightarrow> Inl err
           | Inr w1 \<Rightarrow>
               if dst \<in> denied w1 then Inl EACCES
               else
                 (case e of
                    SymbolicLink t \<Rightarrow>
                      (case d of
                         Some (RegularFile c) \<Rightarrow> Inl EEXIST
                       | _ \<Rightarrow> Inr (put_entry dst (SymbolicLink t) w1))
                  | _ \<Rightarrow> Inr (put_entry dst e w1))))"

text \<open>A directory is copied entry by entry; the fuel bounds the depth, and \<open>None\<close>
  is a copy that does not return.\<close>

fun fs_copy :: "nat \<Rightarrow> path \<Rightarrow> path \<Rightarrow> world \<Rightarrow> (error + world) option"
  and copy_items :: "nat \<Rightarrow> path \<Rightarrow> path \<Rightarrow> string list \<Rightarrow> world \<Rightarrow> (error + world) option"
where
  "fs_copy n src dst w =
     (case files w src of
        None \<Rightarrow> Some (Inl ENOENT)
      | Some (Directory names) \<Rightarrow>
          (case n of
             0 \<Rightarrow> None
           | Suc m \<Rightarrow>
               (case files w dst of
                  Some (RegularFile c) \<Rightarrow> Some (Inl ENOTDIR)
                | Some (SymbolicLink t) \<Rightarrow> Some (Inl ENOTDIR)
                | _ \<Rightarrow>
                    (case fs_ensureDir w dst of
                       Inl err \<Rightarrow> Some (Inl err)
                     | Inr w1 \<Rightarrow> copy_items m src dst names w1)))
      | Some e \<Rightarrow> Some (copy_leaf e dst w))"
| "copy_items n src dst [] w = Some (Inr w)"
| "copy_items n src dst (item # items) w =
     (case fs_copy n (src @ [item]) (dst @ [item]) w of
        None \<Rightarrow> None
      | Some (Inl err) \<Rightarrow> Some (Inl err)
      | Some (Inr w1) \<Rightarrow> copy_items n src dst items w1)"

text \<open>\<open>fs.readJson\<close> and \<open>fs.writeJson\<close> follow a link at the end of the path.\<close>

definition fs_readJson :: "world \<Rightarrow> path \<Rightarrow> error + json" where
  "fs_readJson w p =
     (case follow MAXSYMLINKS (files w) p of
        None \<Rightarrow> Inl ENOENT
      | Some q \<Rightarrow>
          (case files w q of
             Some (RegularFile (JsonText j)) \<Rightarrow> Inr j
           | Some (RegularFile (Bytes b)) \<Rightarrow> Inl SyntaxError
           | Some (Directory names) \<Rightarrow> Inl EISDIR
           | _ \<Rightarrow> Inl ENOENT))"

definition fs_writeJson :: "world \<Rightarrow> path \<Rightarrow> json \<Rightarrow> error + world" where
  "fs_writeJson w p j =
     (case files w p of
        None \<Rightarrow>
          (case files w (dirname p) of
             Some (Directory names) \<Rightarrow>
               if p \<in> denied w then Inl EACCES
               else Inr (put_entry p (RegularFile (JsonText j)) w)
           | _ \<Rightarrow> Inl ENOENT)
      | Some e \<Rightarrow>
          (case follow MAXSYMLINKS (files w) p of
             None \<Rightarrow> Inl ENOENT
           | Some q \<Rightarrow>
               (case files w q of
                  Some (RegularFile c) \<Rightarrow>
                    if q \<in> denied w then Inl EACCES
                    else Inr (w\<lparr>files := (files w)(q \<mapsto> RegularFile (JsonText j))\<rparr>)
                | _ \<Rightarrow> Inl EISDIR)))"

section \<open>The materializer\<close>

text \<open>
  \<open>instantScaffold\<close> and the loop over the directory's items.  \<open>T\<close> is the module
  constant \<open>templateDir\<close>, which depends on where the package is installed.  The
  fuel bounds the depth of the recursion, and \<open>None\<close> is a run that does not return.
  The loop gives the error as it was raised; \<open>instantScaffold\<close> wraps it, at every
  level.  Whatever is raised while a symbolic link is handled is dropped, and what was
  written until then stays.
\<close>

fun instantScaffold :: "nat \<Rightarrow> path \<Rightarrow> path \<Rightarrow> path \<Rightarrow> world \<Rightarrow> (outcome \<times> world) option"
  and scaffold_items ::
    "nat \<Rightarrow> path \<Rightarrow> path \<Rightarrow> path \<Rightarrow> string list \<Rightarrow> world \<Rightarrow> (outcome \<times> world) option"
where
  "instantScaffold 0 T src dest w = None"
| "instantScaffold (Suc n) T src dest w =
     (case fs_ensureDir w dest of
        Inl e \<Rightarrow> Some (Thrown (ScaffoldError e), w)
      | Inr w1 \<Rightarrow>
          (case fs_readdir w1 src of
             Inl e \<Rightarrow> Some (Thrown (ScaffoldError e), w1)
           | Inr items \<Rightarrow>
               (case scaffold_items n T src dest items w1 of
                  None \<Rightarrow> None
                | Some (Thrown e, w2) \<Rightarrow> Some (Thrown (ScaffoldError e), w2)
                | Some (Returned, w2) \<Rightarrow> Some (Returned, w2))))"
| "scaffold_items n T src dest [] w = Some (Returned, w)"
| "scaffold_items n T src dest (item # items) w =
     (if shouldIgnore (src @ [item]) (path_relative T (src @ [item]))
      then scaffold_items n T src dest items w
      else
        (case fs_lstat w (src @ [item]) of
           Inl e \<Rightarrow> Some (Thrown e, w)
         | Inr (SymbolicLink t) \<Rightarrow>
             (case fs_readlink w (src @ [item]) of
                Inl e \<Rightarrow> scaffold_items n T src dest items w
              | Inr linkTarget \<Rightarrow>
                  if fs_pathExists w (path_resolve src linkTarget) then
                    (case fs_lstat w (path_resolve src linkTarget) of
                       Inl e \<Rightarrow> scaffold_items n T src dest items w
                     | Inr (Directory names) \<Rightarrow>
                         (case instantScaffold n T (path_resolve src linkTarget) (dest @ [item]) w of
                            None \<Rightarrow> None
                          | Some (r, w1) \<Rightarrow> scaffold_items n T src dest items w1)
                     | Inr targetStat \<Rightarrow>
                         (case fs_copy n (path_resolve src linkTarget) (dest @ [item]) w of
                            None \<Rightarrow> None
                          | Some (Inl e) \<Rightarrow> scaffold_items n T src dest items w
                          | Some (Inr w1) \<Rightarrow> scaffold_items n T src dest items w1))
                  else scaffold_items n T src dest items w)
         | Inr (Directory names) \<Rightarrow>
             (case instantScaffold n T (src @ [item]) (dest @ [item]) w of
                None \<Rightarrow> None
              | Some (Thrown e, w1) \<Rightarrow> Some (Thrown e, w1)
              | Some (Returned, w1) \<Rightarrow> scaffold_items n T src dest items w1)
         | Inr (RegularFile c) \<Rightarrow>
             (case fs_copy n (src @ [item]) (dest @ [item]) w of
                None \<Rightarrow> None
              | Some (Inl e) \<Rightarrow> Some (Thrown e, w)
              | Some (Inr w1) \<Rightarrow> scaffold_items n T src dest items w1)))"

section \<open>The manifest configurator\<close>

text \<open>
  Assigning a property.  The module is an ECMAScript module, hence strict: on
  \<open>null\<close> and on a primitive value the assignment raises a \<open>TypeError\<close>.  On an array
  it succeeds, and as the name is not an index \<open>JSON.stringify\<close> does not write it:
  the array is written back as it was read.
\<close>

definition set_prop :: "string \<Rightarrow> json \<Rightarrow> json \<Rightarrow> error + json" where
  "set_prop k v j =
     (case j of
        JObj m \<Rightarrow> Inr (JObj (AList.update k v m))
      | JArr xs \<Rightarrow> Inr (JArr xs)
      | _ \<Rightarrow> Inl TypeError)"

definition delete_prop :: "string \<Rightarrow> json \<Rightarrow> error + json" where
  "delete_prop k j =
     (case j of
        JObj m \<Rightarrow> Inr (JObj (AList.delete k m))
      | JNull \<Rightarrow> Inl TypeError
      | _ \<Rightarrow> Inr j)"

text \<open>The changes to the manifest in memory, between \<open>readJson\<close> and \<open>writeJson\<close>.\<close>

definition configure_manifest :: "string \<Rightarrow> string \<Rightarrow> json \<Rightarrow> error + json" where
  "configure_manifest packageManager projectName packageJson =
     (case set_prop ''name'' (JStr projectName) packageJson of
        Inl e \<Rightarrow> Inl e
      | Inr j1 \<Rightarrow>
          if packageManager = ''npm'' then delete_prop ''packageManager'' j1
          else if packageManager = ''yarn'' then
            (case set_prop ''packageManager'' (JStr ''yarn@4.0.0'') j1 of
               Inl e \<Rightarrow> Inl e
             | Inr j2 \<Rightarrow> set_prop ''workspaces'' (JArr [JStr ''apps/*'', JStr ''packages/*'']) j2)
          else set_prop ''packageManager'' (JStr ''pnpm@9.0.0'') j1)"

definition remove_if_exists :: "world \<Rightarrow> path \<Rightarrow> outcome \<times> world" where
  "remove_if_exists w p =
     (if fs_pathExists w p then
        (case fs_remove w p of Inl e \<Rightarrow> (Thrown e, w) | Inr w1 \<Rightarrow> (Returned, w1))
      else (Returned, w))"

text \<open>The first block of \<open>configurePackageManager\<close>: read, change, write once.\<close>

definition update_manifest :: "path \<Rightarrow> string \<Rightarrow> string \<Rightarrow> world \<Rightarrow> error + world" where
  "update_manifest targetDir packageManager projectName w =
     (if fs_pathExists w (targetDir @ [''package.json'']) then
        (case fs_readJson w (targetDir @ [''package.json'']) of
           Inl e \<Rightarrow> Inl e
         | Inr packageJson \<Rightarrow>
             (case configure_manifest packageManager projectName packageJson of
                Inl e \<Rightarrow> Inl e
              | Inr j \<Rightarrow> fs_writeJson w (targetDir @ [''package.json'']) j))
      else Inr w)"

definition configurePackageManager :: "path \<Rightarrow> string \<Rightarrow> string \<Rightarrow> world \<Rightarrow> outcome \<times> world" where
  "configurePackageManager targetDir packageManager projectName w =
     (case update_manifest targetDir packageManager projectName w of
        Inl e \<Rightarrow> (Thrown e, w)
      | Inr w1 \<Rightarrow>
          if packageManager = ''npm'' then remove_if_exists w1 (targetDir @ [''pnpm-workspace.yaml''])
          else if packageManager = ''yarn'' then
            remove_if_exists w1 (targetDir @ [''pnpm-workspace.yaml''])
          else (Returned, w1))"

section \<open>The command\<close>

definition copyNpmrc :: "nat \<Rightarrow> path \<Rightarrow> path \<Rightarrow> world \<Rightarrow> (error + world) option" where
  "copyNpmrc n T targetDir w =
     (if fs_pathExists w (T @ [''.npmrc''])
      then fs_copy n (T @ [''.npmrc'']) (targetDir @ [''.npmrc'']) w
      else Some (Inr w))"

fun required_dirs :: "path \<Rightarrow> string list \<Rightarrow> world \<Rightarrow> error + unit" where
  "required_dirs T [] w = Inr ()"
| "required_dirs T (dir # dirs) w =
     (if \<not> fs_pathExists w (T @ [dir]) then Inl (RequiredDirMissing dir)
      else required_dirs T dirs w)"

definition validateTemplate :: "path \<Rightarrow> world \<Rightarrow> error + unit" where
  "validateTemplate T w =
     (if \<not> fs_pathExists w T then Inl TemplateNotFound
      else required_dirs T [''apps'', ''packages''] w)"

text \<open>
  One run of the command: its arguments, the working directory, and what the user
  answers if asked (the name as the prompt returns it, validated and trimmed).
\<close>

record invocation =
  argv :: "string list"
  cwd :: path
  answerName :: string
  answerPackageManager :: string

definition is_pm_arg :: "string \<Rightarrow> bool" where
  "is_pm_arg arg =
     (prefix ''--package-manager='' arg \<or> arg = ''--npm'' \<or> arg = ''--pnpm'' \<or> arg = ''--yarn'')"

text \<open>The package manager from the arguments, or the answer to the prompt.  A
  string with the prefix \<open>--package-manager=\<close> has a second piece when split at
  \<open>=\<close>, so the last case of the split is never taken.\<close>

definition select_packageManager :: "invocation \<Rightarrow> string" where
  "select_packageManager cmd =
     (case find is_pm_arg (argv cmd) of
        Some packageManagerArg \<Rightarrow>
          if packageManagerArg = ''--npm'' then ''npm''
          else if packageManagerArg = ''--pnpm'' then ''pnpm''
          else if packageManagerArg = ''--yarn'' then ''yarn''
          else if prefix ''--package-manager='' packageManagerArg then
            (case split_on CHR ''='' packageManagerArg of a # b # rest \<Rightarrow> b | _ \<Rightarrow> [])
          else ''pnpm''
      | None \<Rightarrow> answerPackageManager cmd)"

text \<open>\<open>args[0]\<close>, with what stands in for it when it is missing or empty.\<close>

definition first_arg_or :: "string list \<Rightarrow> string \<Rightarrow> string" where
  "first_arg_or args d = (case args of [] \<Rightarrow> d | a # rest \<Rightarrow> if a = [] then d else a)"

datatype flow = Finished | Exited nat | Raised error

text \<open>The \<open>try\<close> block of \<open>main\<close>, after the check for the help flag.  The wait and
  the installation in the background after the project is written are not modelled.\<close>

definition main_try :: "nat \<Rightarrow> path \<Rightarrow> invocation \<Rightarrow> world \<Rightarrow> (flow \<times> world) option" where
  "main_try n T cmd w =
     (case validateTemplate T w of
        Inl e \<Rightarrow> Some (Raised e, w)
      | Inr u \<Rightarrow>
          (let projectName = first_arg_or (argv cmd) (answerName cmd);
               packageManager = select_packageManager cmd;
               targetDir = path_join (cwd cmd) projectName
           in if fs_pathExists w targetDir then Some (Exited 1, w)
              else
                (case instantScaffold n T T targetDir w of
                   None \<Rightarrow> None
                 | Some (Thrown e, w1) \<Rightarrow> Some (Raised e, w1)
                 | Some (Returned, w1) \<Rightarrow>
                     (case configurePackageManager targetDir packageManager projectName w1 of
                        (Thrown e, w2) \<Rightarrow> Some (Raised e, w2)
                      | (Returned, w2) \<Rightarrow>
                          (case copyNpmrc n T targetDir w2 of
                             None \<Rightarrow> None
                           | Some (Inl e) \<Rightarrow> Some (Raised e, w2)
                           | Some (Inr w3) \<Rightarrow> Some (Finished, w3))))))"

text \<open>\<open>main\<close>: the exit code and the world it leaves.\<close>

definition main :: "nat \<Rightarrow> path \<Rightarrow> invocation \<Rightarrow> world \<Rightarrow> (nat \<times> world) option" where
  "main n T cmd w =
     (if ''--help'' \<in> set (argv cmd) \<or> ''-h'' \<in> set (argv cmd) then Some (0, w)
      else
        (case main_try n T cmd w of
           None \<Rightarrow> None
         | Some (Finished, w1) \<Rightarrow> Some (0, w1)
         | Some (Exited code, w1) \<Rightarrow> Some (code, w1)
         | Some (Raised e, w1) \<Rightarrow>
             (let projectName = first_arg_or (argv cmd) ''my-app'';
                  targetDir = path_join (cwd cmd) projectName
              in if fs_pathExists w1 targetDir then
                   (case fs_remove w1 targetDir of
                      Inl cleanupError \<Rightarrow> Some (1, w1)
                    | Inr w2 \<Rightarrow> Some (1, w2))
                 else Some (1, w1))))"

section \<open>Notions used in the statements\<close>

text \<open>The expression that \<open>*.env*\<close> is turned into, and the patterns without a
  wildcard.\<close>

definition env_regex :: "relem list" where
  "env_regex = [AnyStar, AnyChar, Lit CHR ''e'', Lit CHR ''n'', Lit CHR ''v'', AnyStar]"

definition literal_patterns :: "string list" where
  "literal_patterns = filter (\<lambda>p. CHR ''*'' \<notin> set p) IGNORE_PATTERNS"

text \<open>The target text of a symbolic link.\<close>

definition link_of :: "entry \<Rightarrow> string option" where
  "link_of e = (case e of SymbolicLink t \<Rightarrow> Some t | _ \<Rightarrow> None)"

text \<open>What \<open>configure_manifest\<close> makes of an object, and the fields the three package
  managers ask for.\<close>

definition manifest_of :: "string \<Rightarrow> string \<Rightarrow> (string \<times> json) list \<Rightarrow> (string \<times> json) list" where
  "manifest_of k n m =
     (if k = ''npm'' then AList.delete ''packageManager'' (AList.update ''name'' (JStr n) m)
      else if k = ''yarn'' then
        AList.update ''workspaces'' (JArr [JStr ''apps/*'', JStr ''packages/*''])
          (AList.update ''packageManager'' (JStr ''yarn@4.0.0'') (AList.update ''name'' (JStr n) m))
      else AList.update ''packageManager'' (JStr ''pnpm@9.0.0'') (AList.update ''name'' (JStr n) m))"


text \<open>Two target directories to run the configurator on: one as the template ships it,
  one whose manifest is not valid JSON.\<close>

definition demo_target :: world where
  "demo_target =
     \<lparr>files = Map.empty
        ([] \<mapsto> Directory [''demo''],
         [''demo''] \<mapsto> Directory [''package.json'', ''pnpm-workspace.yaml''],
         [''demo'', ''package.json''] \<mapsto>
           RegularFile (JsonText (JObj [(''name'', JStr ''template''),
                                        (''packageManager'', JStr ''pnpm@8.0.0'')])),
         [''demo'', ''pnpm-workspace.yaml''] \<mapsto> RegularFile (Bytes ''packages'')),
      denied = {}\<rparr>"


text \<open>
  A name that the filter rejects whatever the path: it is one of the patterns without a
  wildcard, or the expression of \<open>*.env*\<close> matches it.  \<open>touched_below dest p\<close>: the
  path is \<open>dest\<close>, a directory above it, or below it with no such name on the way;
  \<open>touched dest items p\<close>: the same, below one of the items.  \<open>writes_below\<close> and
  \<open>writes_items\<close>: the second world differs from the first at such paths only.
\<close>

definition name_ignored :: "string \<Rightarrow> bool" where
  "name_ignored c = (c \<in> set literal_patterns \<or> regex_test env_regex c)"

definition touched :: "path \<Rightarrow> string list \<Rightarrow> path \<Rightarrow> bool" where
  "touched dest items p =
     (prefix p dest \<or> (\<exists>i q. i \<in> set items \<and> p = dest @ i # q \<and> (\<forall>c \<in> set (i # q). \<not> name_ignored c)))"

definition touched_below :: "path \<Rightarrow> path \<Rightarrow> bool" where
  "touched_below dest p =
     (prefix p dest \<or> (\<exists>q. p = dest @ q \<and> (\<forall>c \<in> set q. \<not> name_ignored c)))"

definition writes_below :: "path \<Rightarrow> world \<Rightarrow> world \<Rightarrow> bool" where
  "writes_below dest w w' =
     (denied w' = denied w \<and> (\<forall>p. files w' p \<noteq> files w p \<longrightarrow> touched_below dest p))"

definition writes_items :: "path \<Rightarrow> string list \<Rightarrow> world \<Rightarrow> world \<Rightarrow> bool" where
  "writes_items dest items w w' =
     (denied w' = denied w \<and> (\<forall>p. files w' p \<noteq> files w p \<longrightarrow> touched dest items p))"

text \<open>One turn of the loop of \<open>instantScaffold\<close>, with the entry looked up once.\<close>

definition scaffold_item ::
    "nat \<Rightarrow> path \<Rightarrow> path \<Rightarrow> path \<Rightarrow> string \<Rightarrow> world \<Rightarrow> (outcome \<times> world) option" where
  "scaffold_item n T src dest item w =
     (if shouldIgnore (src @ [item]) (path_relative T (src @ [item])) then Some (Returned, w)
      else
        (case files w (src @ [item]) of
           None \<Rightarrow> Some (Thrown ENOENT, w)
         | Some (RegularFile c) \<Rightarrow>
             (case copy_leaf (RegularFile c) (dest @ [item]) w of
                Inl e \<Rightarrow> Some (Thrown e, w)
              | Inr w1 \<Rightarrow> Some (Returned, w1))
         | Some (Directory names) \<Rightarrow> instantScaffold n T (src @ [item]) (dest @ [item]) w
         | Some (SymbolicLink t) \<Rightarrow>
             (if fs_pathExists w (path_resolve src t) then
                (case files w (path_resolve src t) of
                   None \<Rightarrow> Some (Returned, w)
                 | Some (Directory names) \<Rightarrow>
                     (case instantScaffold n T (path_resolve src t) (dest @ [item]) w of
                        None \<Rightarrow> None
                      | Some (r, w1) \<Rightarrow> Some (Returned, w1))
                 | Some e \<Rightarrow>
                     (case copy_leaf e (dest @ [item]) w of
                        Inl err \<Rightarrow> Some (Returned, w)
                      | Inr w1 \<Rightarrow> Some (Returned, w1)))
              else Some (Returned, w))))"

text \<open>A template with a file, an ignored directory, a link to the file and a broken
  link, next to an empty working directory.\<close>

definition demo_template :: world where
  "demo_template =
     \<lparr>files = Map.empty
        ([] \<mapsto> Directory [''basic'', ''work''],
         [''work''] \<mapsto> Directory [],
         [''basic''] \<mapsto> Directory [''a.txt'', ''node_modules'', ''l'', ''b''],
         [''basic'', ''a.txt''] \<mapsto> RegularFile (Bytes ''A''),
         [''basic'', ''node_modules''] \<mapsto> Directory [''x''],
         [''basic'', ''node_modules'', ''x''] \<mapsto> RegularFile (Bytes ''X''),
         [''basic'', ''l''] \<mapsto> SymbolicLink ''a.txt'',
         [''basic'', ''b''] \<mapsto> SymbolicLink ''gone''),
      denied = {}\<rparr>"

text \<open>
  Two runs of the command.  In the first the name is asked for and answered \<open>demo\<close>,
  the working directory holds an unrelated directory \<open>my-app\<close>, and creating
  \<open>demo/packages\<close> is refused.  In the second the name \<open>demo\<close> is an argument, the
  directory \<open>demo\<close> exists, and the template lacks \<open>apps\<close>.
\<close>

definition asked_world :: world where
  "asked_world =
     \<lparr>files = Map.empty
        ([] \<mapsto> Directory [''basic'', ''work''],
         [''basic''] \<mapsto> Directory [''apps'', ''packages'', ''package.json''],
         [''basic'', ''apps''] \<mapsto> Directory [],
         [''basic'', ''packages''] \<mapsto> Directory [],
         [''basic'', ''package.json''] \<mapsto> RegularFile (JsonText (JObj [(''name'', JStr ''template'')])),
         [''work''] \<mapsto> Directory [''my-app''],
         [''work'', ''my-app''] \<mapsto> Directory [''notes.txt''],
         [''work'', ''my-app'', ''notes.txt''] \<mapsto> RegularFile (Bytes ''mine'')),
      denied = {[''work'', ''demo'', ''packages'']}\<rparr>"

definition asked_run :: invocation where
  "asked_run = \<lparr>argv = [], cwd = [''work''], answerName = ''demo'', answerPackageManager = ''npm''\<rparr>"

definition existing_world :: world where
  "existing_world =
     \<lparr>files = Map.empty
        ([] \<mapsto> Directory [''basic'', ''work''],
         [''basic''] \<mapsto> Directory [''packages'', ''package.json''],
         [''basic'', ''packages''] \<mapsto> Directory [],
         [''basic'', ''package.json''] \<mapsto> RegularFile (JsonText (JObj [(''name'', JStr ''template'')])),
         [''work''] \<mapsto> Directory [''demo''],
         [''work'', ''demo''] \<mapsto> Directory [''keep.txt''],
         [''work'', ''demo'', ''keep.txt''] \<mapsto> RegularFile (Bytes ''mine'')),
      denied = {}\<rparr>"

definition existing_run :: invocation where
  "existing_run = \<lparr>argv = [''demo'', ''--npm''], cwd = [''work''], answerName = [], answerPackageManager = []\<rparr>"






definition dir_at :: "world \<Rightarrow> path \<Rightarrow> bool" where
  "dir_at w p = (case files w p of Some (Directory names) \<Rightarrow> True | _ \<Rightarrow> False)"







section \<open>The ignore filter: what matches\<close>




lemma RegExp_env: "RegExp (replace_star ''*.env*'') = Some env_regex"
  by (simp add: env_regex_def regex_meta_def)



lemma shouldIgnore_iff:
  "shouldIgnore p rel \<longleftrightarrow>
     basename p \<in> set literal_patterns \<or> rel \<in> set literal_patterns \<or>
     regex_test env_regex (basename p) \<or> regex_test env_regex rel"
  unfolding shouldIgnore_def literal_patterns_def IGNORE_PATTERNS_def
  by (simp add: RegExp_env del: replace_star.simps RegExp.simps)

section \<open>The manifest configurator: properties\<close>

lemma follow_not_link:
  "fs p = Some e \<Longrightarrow> (\<forall>t. e \<noteq> SymbolicLink t) \<Longrightarrow> follow n fs p = Some p"
  by (cases n; cases e) auto

lemma follow_absent: "fs p = None \<Longrightarrow> follow n fs p = None"
  by (cases n) auto

lemma link_of_simps [simp]:
  "link_of (RegularFile c) = None" "link_of (Directory ns) = None" "link_of (SymbolicLink t) = Some t"
  by (simp_all add: link_of_def)

lemma link_of_None: "link_of e = None \<longleftrightarrow> (\<forall>t. e \<noteq> SymbolicLink t)"
  by (cases e) auto

lemma link_of_Some: "link_of e = Some t \<longleftrightarrow> e = SymbolicLink t"
  by (cases e) auto

lemma follow_0: "follow 0 fs p = (case fs p of None \<Rightarrow> None | Some e \<Rightarrow> if link_of e = None then Some p else None)"
  by (auto split: option.splits entry.splits)

lemma follow_Suc: "follow (Suc n) fs p =
   (case fs p of None \<Rightarrow> None
    | Some e \<Rightarrow> (case link_of e of None \<Rightarrow> Some p | Some t \<Rightarrow> follow n fs (path_resolve (dirname p) t)))"
  by (auto split: option.splits entry.splits)

lemmas follow_unfold = follow_0 follow_Suc

lemma follow_cong_links:
  assumes "\<And>x. map_option link_of (fs' x) = map_option link_of (fs x)"
  shows "follow n fs' p = follow n fs p"
proof (induction n arbitrary: p)
  case 0
  from assms[of p] show ?case
    unfolding follow_0 by (cases "fs p"; cases "fs' p") auto
next
  case (Suc n)
  from assms[of p] Suc.IH show ?case
    unfolding follow_Suc by (cases "fs p"; cases "fs' p") (auto split: option.splits)
qed

lemma follow_mono_links:
  assumes "\<And>x e'. fs' x = Some e' \<Longrightarrow> \<exists>e. fs x = Some e \<and> link_of e = link_of e'"
  shows "follow n fs' p = Some q \<Longrightarrow> follow n fs p = Some q"
proof (induction n arbitrary: p)
  case 0
  then show ?case using assms[of p]
    unfolding follow_0 by (cases "fs' p") (auto split: if_splits)
next
  case (Suc n)
  show ?case
  proof (cases "fs' p")
    case None
    with Suc.prems show ?thesis unfolding follow_Suc by simp
  next
    case (Some e')
    with assms obtain e where e: "fs p = Some e" "link_of e = link_of e'" by blast
    with Some Suc.prems Suc.IH show ?thesis
      unfolding follow_Suc by (cases "link_of e'") auto
  qed
qed

lemma follow_result_present: "follow n fs p = Some q \<Longrightarrow> \<exists>e. fs q = Some e \<and> link_of e = None"
proof (induction n arbitrary: p)
  case 0
  then show ?case unfolding follow_0 by (cases "fs p") (auto split: if_splits)
next
  case (Suc n)
  then show ?case unfolding follow_Suc
    by (cases "fs p") (auto split: option.splits)
qed

lemma configure_manifest_obj:
  "configure_manifest k n (JObj m) =
     Inr (JObj (if k = ''npm'' then AList.delete ''packageManager'' (AList.update ''name'' (JStr n) m)
                else if k = ''yarn'' then
                  AList.update ''workspaces'' (JArr [JStr ''apps/*'', JStr ''packages/*''])
                    (AList.update ''packageManager'' (JStr ''yarn@4.0.0'')
                      (AList.update ''name'' (JStr n) m))
                else AList.update ''packageManager'' (JStr ''pnpm@9.0.0'')
                       (AList.update ''name'' (JStr n) m)))"
  by (simp add: configure_manifest_def set_prop_def delete_prop_def)

lemma configure_manifest_idem:
  "configure_manifest k n j = Inr j' \<Longrightarrow> configure_manifest k n j' = Inr j'"
proof (cases j)
  case (JObj m)
  assume a: "configure_manifest k n j = Inr j'"
  show ?thesis
    using a unfolding JObj configure_manifest_obj
    by (auto simp: configure_manifest_obj update_conv' delete_conv' AList.update_triv AList.delete_idem)
qed (auto simp: configure_manifest_def set_prop_def delete_prop_def split: if_splits)



lemma remove_tree_below: "prefix p q \<Longrightarrow> remove_tree p fs q = None"
  by (simp add: remove_tree_def)

lemma remove_tree_link_of:
  "remove_tree p fs x = Some e' \<Longrightarrow> \<exists>e. fs x = Some e \<and> link_of e = link_of e'"
  by (auto simp: remove_tree_def del_name_def split: option.splits entry.splits if_splits)

lemma pathExists_regular:
  "files w p = Some (RegularFile c) \<Longrightarrow> fs_pathExists w p"
  by (simp add: fs_pathExists_def follow_not_link)

lemma readJson_regular:
  "files w p = Some (RegularFile c) \<Longrightarrow>
     fs_readJson w p = (case c of JsonText j \<Rightarrow> Inr j | Bytes b \<Rightarrow> Inl SyntaxError)"
  by (simp add: fs_readJson_def follow_not_link split: content.splits)

lemma writeJson_regular:
  "files w p = Some (RegularFile c) \<Longrightarrow>
     fs_writeJson w p j =
       (if p \<in> denied w then Inl EACCES
        else Inr (w\<lparr>files := (files w)(p \<mapsto> RegularFile (JsonText j))\<rparr>))"
  by (simp add: fs_writeJson_def follow_not_link)


lemma sibling_not_prefix: "a \<noteq> b \<Longrightarrow> \<not> prefix (d @ [a]) (d @ [b])"
  by (simp add: prefix_def)




lemma configure_object_manifest:
  assumes "files w (d @ [''package.json'']) = Some (RegularFile (JsonText (JObj m)))"
  shows "configurePackageManager d k n w =
     (if d @ [''package.json''] \<in> denied w then (Thrown EACCES, w)
      else if k = ''npm'' \<or> k = ''yarn'' then
        remove_if_exists
          (w\<lparr>files := (files w)(d @ [''package.json''] \<mapsto> RegularFile (JsonText (JObj (manifest_of k n m))))\<rparr>)
          (d @ [''pnpm-workspace.yaml''])
      else (Returned,
          w\<lparr>files := (files w)(d @ [''package.json''] \<mapsto> RegularFile (JsonText (JObj (manifest_of k n m))))\<rparr>))"
  using assms
  by (simp add: configurePackageManager_def update_manifest_def pathExists_regular readJson_regular writeJson_regular
      configure_manifest_obj manifest_of_def)




lemma manifest_of_other:
  "k \<noteq> ''npm'' \<Longrightarrow> k \<noteq> ''yarn'' \<Longrightarrow>
     map_of (manifest_of k n m) ''packageManager'' = Some (JStr ''pnpm@9.0.0'')"
  by (simp add: manifest_of_def update_conv' delete_conv')








lemma writeJson_followed:
  assumes "follow MAXSYMLINKS (files w) p = Some q"
  shows "fs_writeJson w p j =
     (case files w q of
        Some (RegularFile c) \<Rightarrow>
          if q \<in> denied w then Inl EACCES
          else Inr (w\<lparr>files := (files w)(q \<mapsto> RegularFile (JsonText j))\<rparr>)
      | _ \<Rightarrow> Inl EISDIR)"
proof -
  from assms have "files w p \<noteq> None"
    using follow_absent[of "files w" p MAXSYMLINKS] by auto
  with assms show ?thesis
    by (auto simp: fs_writeJson_def)
qed

lemma readJson_followed:
  assumes "follow MAXSYMLINKS (files w) p = Some q"
  shows "fs_readJson w p =
     (case files w q of
        Some (RegularFile (JsonText j)) \<Rightarrow> Inr j
      | Some (RegularFile (Bytes b)) \<Rightarrow> Inl SyntaxError
      | Some (Directory names) \<Rightarrow> Inl EISDIR
      | _ \<Rightarrow> Inl ENOENT)"
  using assms by (simp add: fs_readJson_def)

lemma update_manifest_followed:
  assumes "follow MAXSYMLINKS (files w) (d @ [''package.json'']) = Some q"
  shows "update_manifest d k n w = Inr w1 \<longleftrightarrow>
     (\<exists>j j'. files w q = Some (RegularFile (JsonText j)) \<and> configure_manifest k n j = Inr j' \<and>
        q \<notin> denied w \<and> w1 = w\<lparr>files := (files w)(q \<mapsto> RegularFile (JsonText j'))\<rparr>)"
  using assms
  by (auto simp: update_manifest_def fs_pathExists_def readJson_followed writeJson_followed
      split: option.splits entry.splits content.splits sum.splits)

lemma update_manifest_idem:
  assumes "update_manifest d k n w = Inr w1"
  shows "update_manifest d k n w1 = Inr w1"
proof (cases "fs_pathExists w (d @ [''package.json''])")
  case False
  with assms show ?thesis by (simp add: update_manifest_def)
next
  case True
  let ?pj = "d @ [''package.json'']"
  from True obtain q where q: "follow MAXSYMLINKS (files w) ?pj = Some q"
    by (auto simp: fs_pathExists_def)
  from assms obtain j j' where c: "files w q = Some (RegularFile (JsonText j))"
    and cm: "configure_manifest k n j = Inr j'" and nd: "q \<notin> denied w"
    and w1: "w1 = w\<lparr>files := (files w)(q \<mapsto> RegularFile (JsonText j'))\<rparr>"
    unfolding update_manifest_followed[OF q] by blast
  have q1: "follow MAXSYMLINKS (files w1) ?pj = Some q"
    unfolding w1 using c q by (subst follow_cong_links[where fs = "files w"]) auto
  show ?thesis
    unfolding update_manifest_followed[OF q1]
    using configure_manifest_idem[OF cm] nd by (auto simp: w1)
qed

lemma remove_tree_regular:
  "remove_tree p fs q = Some e \<Longrightarrow> fs q = Some (RegularFile c) \<Longrightarrow> e = RegularFile c"
  by (auto simp: remove_tree_def del_name_def split: option.splits entry.splits if_splits)

lemma update_manifest_after_remove:
  assumes stable: "update_manifest d k n w1 = Inr w1"
  shows "update_manifest d k n (w1\<lparr>files := remove_tree p (files w1)\<rparr>) = Inr (w1\<lparr>files := remove_tree p (files w1)\<rparr>)"
proof (cases "fs_pathExists (w1\<lparr>files := remove_tree p (files w1)\<rparr>) (d @ [''package.json''])")
  case False
  then show ?thesis by (simp add: update_manifest_def)
next
  case True
  let ?pj = "d @ [''package.json'']"
  let ?w2 = "w1\<lparr>files := remove_tree p (files w1)\<rparr>"
  from True obtain q where q2: "follow MAXSYMLINKS (files ?w2) ?pj = Some q"
    by (auto simp: fs_pathExists_def)
  have q1: "follow MAXSYMLINKS (files w1) ?pj = Some q"
    by (rule follow_mono_links[where fs' = "files ?w2"]) (use q2 remove_tree_link_of in auto)
  from stable obtain j j' where c: "files w1 q = Some (RegularFile (JsonText j))"
    and cm: "configure_manifest k n j = Inr j'" and nd: "q \<notin> denied w1"
    and w1: "w1 = w1\<lparr>files := (files w1)(q \<mapsto> RegularFile (JsonText j'))\<rparr>"
    unfolding update_manifest_followed[OF q1] by blast
  from w1 have "files w1 = (files w1)(q \<mapsto> RegularFile (JsonText j'))"
    by (metis world.select_convs(1) world.surjective world.update_convs(1))
  then have "files w1 q = Some (RegularFile (JsonText j'))"
    by (metis fun_upd_same)
  with c have jj: "j' = j" by simp
  from follow_result_present[OF q2] obtain e2 where e2: "files ?w2 q = Some e2" by blast
  then have "e2 = RegularFile (JsonText j)"
    using c remove_tree_regular[of p "files w1" q e2] by simp
  with e2 have cq2: "files ?w2 q = Some (RegularFile (JsonText j))" by simp
  then have same: "(files ?w2)(q \<mapsto> RegularFile (JsonText j)) = files ?w2"
    by (simp add: fun_upd_idem)
  show ?thesis
    unfolding update_manifest_followed[OF q2]
    using cq2 cm jj nd same by auto
qed

lemma remove_if_exists_idem:
  "remove_if_exists w p = (r, w') \<Longrightarrow> remove_if_exists w' p = (r, w')"
  by (auto simp: remove_if_exists_def fs_remove_def fs_pathExists_def follow_absent remove_tree_below
      split: if_splits sum.splits)

lemma remove_if_exists_cases:
  "remove_if_exists w p = (r, w') \<Longrightarrow> w' = w \<or> w' = w\<lparr>files := remove_tree p (files w)\<rparr>"
  by (auto simp: remove_if_exists_def fs_remove_def split: if_splits sum.splits)

lemma configure_twice:
  "configurePackageManager d k n (snd (configurePackageManager d k n w)) =
     configurePackageManager d k n w"
proof (cases "update_manifest d k n w")
  case (Inl e)
  then show ?thesis by (simp add: configurePackageManager_def)
next
  case (Inr w1)
  note stable = update_manifest_idem[OF Inr]
  show ?thesis
  proof (cases "k = ''npm'' \<or> k = ''yarn''")
    case False
    with Inr stable show ?thesis by (simp add: configurePackageManager_def)
  next
    case True
    obtain r w' where rm: "remove_if_exists w1 (d @ [''pnpm-workspace.yaml'']) = (r, w')"
      by (cases "remove_if_exists w1 (d @ [''pnpm-workspace.yaml''])")
    with True Inr have first: "configurePackageManager d k n w = (r, w')"
      by (auto simp: configurePackageManager_def)
    have "update_manifest d k n w' = Inr w'"
      using remove_if_exists_cases[OF rm] stable update_manifest_after_remove[OF stable] by auto
    with True remove_if_exists_idem[OF rm] have "configurePackageManager d k n w' = (r, w')"
      by (auto simp: configurePackageManager_def)
    with first show ?thesis by simp
  qed
qed


lemma configure_other_kind:
  assumes "k \<noteq> ''npm''" "k \<noteq> ''yarn''"
  shows "configurePackageManager d k n w =
     (case update_manifest d k n w of Inl e \<Rightarrow> (Thrown e, w) | Inr w1 \<Rightarrow> (Returned, w1))"
  using assms by (simp add: configurePackageManager_def split: sum.splits)

lemma split_on_absent: "c \<notin> set s \<Longrightarrow> split_on c s = [s]"
  by (induction s) auto

lemma select_packageManager_value:
  assumes "CHR ''='' \<notin> set v" and "\<not> is_pm_arg a"
  shows "select_packageManager
           \<lparr>argv = [a, ''--package-manager='' @ v], cwd = c, answerName = x, answerPackageManager = y\<rparr> = v"
  using assms
  by (simp add: select_packageManager_def is_pm_arg_def split_on_absent)

section \<open>The materializer: where it writes\<close>

lemma add_name_other: "p \<noteq> dirname x \<Longrightarrow> add_name x fs p = fs p"
  by (auto simp: add_name_def split: option.splits entry.splits)

lemma put_entry_other:
  "p \<noteq> x \<Longrightarrow> p \<noteq> dirname x \<Longrightarrow> files (put_entry x e w) p = files w p"
  by (simp add: put_entry_def add_name_other)

lemma put_entry_denied [simp]: "denied (put_entry x e w) = denied w"
  by (simp add: put_entry_def)

lemma prefix_dirname: "prefix (dirname p) p"
  unfolding dirname_def by (cases p rule: rev_cases) simp_all

lemma mkdirs_frame:
  "mkdirs done cs w = Inr w' \<Longrightarrow>
     denied w' = denied w \<and> (\<forall>p. \<not> prefix p (done @ cs) \<longrightarrow> files w' p = files w p)"
proof (induction cs arbitrary: "done" w)
  case Nil
  then show ?case by simp
next
  case (Cons c cs)
  show ?case
  proof (cases "files w (done @ [c])")
    case None
    with Cons.prems have nd: "done @ [c] \<notin> denied w"
      and rest: "mkdirs (done @ [c]) cs (put_entry (done @ [c]) (Directory []) w) = Inr w'"
      by (auto split: if_splits)
    from Cons.IH[OF rest] have
      d: "denied w' = denied w" and
      f: "\<And>p. \<not> prefix p ((done @ [c]) @ cs) \<Longrightarrow> files w' p = files (put_entry (done @ [c]) (Directory []) w) p"
      by auto
    have "files w' p = files w p" if np: "\<not> prefix p (done @ c # cs)" for p
    proof -
      from np have "p \<noteq> done @ [c]" "p \<noteq> dirname (done @ [c])"
        by (auto simp: dirname_def)
      with f[of p] np show ?thesis by (simp add: put_entry_other)
    qed
    with d show ?thesis by simp
  next
    case (Some e)
    with Cons.prems obtain ns where "e = Directory ns" and rest: "mkdirs (done @ [c]) cs w = Inr w'"
      by (cases e) auto
    from Cons.IH[OF rest] show ?thesis by simp
  qed
qed

lemma ensureDir_frame:
  "fs_ensureDir w d = Inr w' \<Longrightarrow>
     denied w' = denied w \<and> (\<forall>p. \<not> prefix p d \<longrightarrow> files w' p = files w p)"
  unfolding fs_ensureDir_def using mkdirs_frame[of "[]" d w w'] by simp

lemma copy_leaf_frame:
  assumes "copy_leaf e dst w = Inr w'"
  shows "denied w' = denied w \<and> (\<forall>p. \<not> prefix p dst \<longrightarrow> files w' p = files w p)"
proof -
  from assms obtain w1 e' where w1: "fs_ensureDir w (dirname dst) = Inr w1" and w': "w' = put_entry dst e' w1"
    by (auto simp: copy_leaf_def split: option.splits entry.splits sum.splits if_splits)
  from ensureDir_frame[OF w1] have d: "denied w1 = denied w"
    and f: "\<And>p. \<not> prefix p (dirname dst) \<Longrightarrow> files w1 p = files w p" by auto
  have "files w' p = files w p" if np: "\<not> prefix p dst" for p
  proof -
    from np have 1: "p \<noteq> dst" by auto
    from np prefix_dirname[of dst] have 2: "\<not> prefix p (dirname dst)"
      using prefix_order.trans by blast
    then have 3: "p \<noteq> dirname dst" by auto
    from 1 2 3 f[of p] show ?thesis by (simp add: w' put_entry_other)
  qed
  with d w' show ?thesis by simp
qed

lemma fs_copy_leaf:
  "files w src = Some e \<Longrightarrow> \<not> is_dir e \<Longrightarrow> fs_copy n src dst w = Some (copy_leaf e dst w)"
  by (cases e) (auto simp: is_dir_def)

lemma shouldIgnore_name: "name_ignored c \<Longrightarrow> shouldIgnore (src @ [c]) rel"
  by (auto simp: shouldIgnore_iff name_ignored_def basename_def)

lemma touched_tail: "touched dest items p \<Longrightarrow> touched dest (i # items) p"
  unfolding touched_def by auto

lemma touched_to_below: "touched dest items p \<Longrightarrow> touched_below dest p"
  unfolding touched_def touched_below_def by auto


lemma touched_below_item:
  assumes "\<not> name_ignored i" and "touched_below (dest @ [i]) p"
  shows "touched dest (i # items) p"
proof -
  from assms(2) consider "prefix p (dest @ [i])"
    | q where "p = (dest @ [i]) @ q" "\<forall>c \<in> set q. \<not> name_ignored c"
    unfolding touched_below_def by blast
  then show ?thesis
  proof cases
    case 1
    then have "p = dest @ [i] \<or> prefix p dest" by (simp add: prefix_snoc)
    then show ?thesis
    proof
      assume "p = dest @ [i]"
      then have "i \<in> set (i # items) \<and> p = dest @ i # [] \<and> (\<forall>c \<in> set (i # []). \<not> name_ignored c)"
        using assms(1) by simp
      then show ?thesis unfolding touched_def by blast
    next
      assume "prefix p dest"
      then show ?thesis unfolding touched_def by blast
    qed
  next
    case 2
    then have "i \<in> set (i # items) \<and> p = dest @ i # q \<and> (\<forall>c \<in> set (i # q). \<not> name_ignored c)"
      using assms(1) by simp
    then show ?thesis unfolding touched_def by blast
  qed
qed

lemma touched_below_prefix: "prefix p dest \<Longrightarrow> touched_below dest p"
  by (simp add: touched_below_def)

lemma scaffold_items_Cons:
  "scaffold_items n T src dest (item # items) w =
     (case scaffold_item n T src dest item w of
        None \<Rightarrow> None
      | Some (Thrown e, w1) \<Rightarrow> Some (Thrown e, w1)
      | Some (Returned, w1) \<Rightarrow> scaffold_items n T src dest items w1)"
  by (simp add: scaffold_item_def fs_lstat_def fs_readlink_def
      split: option.splits entry.splits sum.splits prod.splits outcome.splits)


declare scaffold_items.simps(2) [simp del]

lemma writes_below_refl: "writes_below dest w w"
  by (simp add: writes_below_def)

lemma writes_items_refl: "writes_items dest items w w"
  by (simp add: writes_items_def)

lemma copy_leaf_writes: "copy_leaf e dst w = Inr w' \<Longrightarrow> writes_below dst w w'"
  using copy_leaf_frame[of e dst w w'] unfolding writes_below_def touched_below_def by blast

lemma ensureDir_writes: "fs_ensureDir w d = Inr w' \<Longrightarrow> writes_below d w w'"
  using ensureDir_frame[of w d w'] unfolding writes_below_def touched_below_def by blast

lemma writes_items_step:
  assumes "\<not> name_ignored i" and "writes_below (dest @ [i]) w w1" and "writes_items dest items w1 w'"
  shows "writes_items dest (i # items) w w'"
  unfolding writes_items_def
proof (intro conjI allI impI)
  from assms show "denied w' = denied w" by (simp add: writes_below_def writes_items_def)
  fix p assume ch: "files w' p \<noteq> files w p"
  show "touched dest (i # items) p"
  proof (cases "files w' p = files w1 p")
    case True
    with ch have "files w1 p \<noteq> files w p" by simp
    with assms(2) have "touched_below (dest @ [i]) p" by (simp add: writes_below_def)
    with assms(1) show ?thesis by (rule touched_below_item)
  next
    case False
    with assms(3) have "touched dest items p" by (simp add: writes_items_def)
    then show ?thesis by (rule touched_tail)
  qed
qed

lemma writes_items_skip: "writes_items dest items w w' \<Longrightarrow> writes_items dest (i # items) w w'"
  unfolding writes_items_def using touched_tail by blast

lemma writes_items_last:
  assumes "\<not> name_ignored i" and "writes_below (dest @ [i]) w w'"
  shows "writes_items dest (i # items) w w'"
  using writes_items_step[OF assms writes_items_refl] .

lemma writes_below_trans:
  "writes_below d w w1 \<Longrightarrow> writes_below d w1 w' \<Longrightarrow> writes_below d w w'"
  unfolding writes_below_def by metis

lemma writes_items_to_below: "writes_items d items w w' \<Longrightarrow> writes_below d w w'"
  unfolding writes_below_def writes_items_def using touched_to_below by blast

lemma scaffold_item_writes:
  assumes IH: "\<And>src dest w r w'. instantScaffold n T src dest w = Some (r, w') \<Longrightarrow> writes_below dest w w'"
    and run: "scaffold_item n T src dest item w = Some (r, w')"
  shows "w' = w \<or> (\<not> name_ignored item \<and> writes_below (dest @ [item]) w w')"
proof (cases "shouldIgnore (src @ [item]) (path_relative T (src @ [item]))")
  case True
  with run show ?thesis by (simp add: scaffold_item_def)
next
  case False
  then have ni: "\<not> name_ignored item" using shouldIgnore_name by blast
  from run False have "w' = w \<or> writes_below (dest @ [item]) w w'"
    by (auto simp: scaffold_item_def dest: IH copy_leaf_writes
        split: option.splits entry.splits sum.splits if_splits prod.splits)
  with ni show ?thesis by blast
qed

lemma scaffold_items_writes:
  assumes IH: "\<And>src dest w r w'. instantScaffold n T src dest w = Some (r, w') \<Longrightarrow> writes_below dest w w'"
  shows "scaffold_items n T src dest items w = Some (r, w') \<Longrightarrow> writes_items dest items w w'"
proof (induction items arbitrary: w)
  case Nil
  then show ?case by (simp add: writes_items_refl)
next
  case (Cons item items)
  from Cons.prems obtain r1 w1 where step: "scaffold_item n T src dest item w = Some (r1, w1)"
    by (auto simp: scaffold_items_Cons split: option.splits)
  from scaffold_item_writes[OF IH step]
  have w1: "w1 = w \<or> (\<not> name_ignored item \<and> writes_below (dest @ [item]) w w1)" .
  show ?case
  proof (cases r1)
    case (Thrown e)
    with Cons.prems step have "w' = w1" by (simp add: scaffold_items_Cons)
    with w1 show ?thesis
      using writes_items_refl writes_items_last by blast
  next
    case Returned
    with Cons.prems step have "scaffold_items n T src dest items w1 = Some (r, w')"
      by (simp add: scaffold_items_Cons)
    from Cons.IH[OF this] have "writes_items dest items w1 w'" .
    with w1 show ?thesis
      using writes_items_skip writes_items_step by blast
  qed
qed

lemma instantScaffold_writes:
  "instantScaffold n T src dest w = Some (r, w') \<Longrightarrow> writes_below dest w w'"
proof (induction n arbitrary: src dest w r w')
  case 0
  then show ?case by simp
next
  case (Suc n)
  show ?case
  proof (cases "fs_ensureDir w dest")
    case (Inl e)
    with Suc.prems show ?thesis by (auto simp: writes_below_refl)
  next
    case (Inr w1)
    note e = ensureDir_writes[OF Inr]
    show ?thesis
    proof (cases "fs_readdir w1 src")
      case (Inl err)
      with Inr Suc.prems e show ?thesis by auto
    next
      case items: (Inr items)
      from Suc.prems Inr items obtain r2 where "scaffold_items n T src dest items w1 = Some (r2, w')"
        by (auto split: option.splits outcome.splits)
      from scaffold_items_writes[OF Suc.IH this] have "writes_items dest items w1 w'" .
      then have "writes_below dest w1 w'" by (rule writes_items_to_below)
      with e show ?thesis by (rule writes_below_trans)
    qed
  qed
qed

lemma item_not_touched: "item \<notin> set items \<Longrightarrow> \<not> touched dest items (dest @ item # q)"
  by (auto simp: touched_def prefix_def)

lemma items_leave_other_names:
  assumes "scaffold_items n T src dest items w = Some (r, w')" and "item \<notin> set items"
  shows "files w' (dest @ item # q) = files w (dest @ item # q)"
proof -
  from scaffold_items_writes[OF instantScaffold_writes assms(1)]
  have "writes_items dest items w w'" .
  with item_not_touched[OF assms(2)] show ?thesis
    unfolding writes_items_def by blast
qed

section \<open>The materializer: the tree it builds\<close>

lemma dir_at_simps:
  "files w p = Some (Directory ns) \<Longrightarrow> dir_at w p"
  "files w p = None \<Longrightarrow> \<not> dir_at w p"
  "files w p = Some (RegularFile c) \<Longrightarrow> \<not> dir_at w p"
  "files w p = Some (SymbolicLink t) \<Longrightarrow> \<not> dir_at w p"
  by (simp_all add: dir_at_def)




lemma add_name_dir: "dir_at \<lparr>files = fs, denied = d\<rparr> p \<Longrightarrow> dir_at \<lparr>files = add_name x fs, denied = d\<rparr> p"
  by (auto simp: dir_at_def add_name_def split: option.splits entry.splits)


























lemma pathExists_present: "fs_pathExists w p \<Longrightarrow> \<exists>e. files w p = Some e"
  unfolding fs_pathExists_def using follow_absent[of "files w" p MAXSYMLINKS]
  by (cases "files w p") auto






section \<open>The claims about the materializer\<close>

lemma literal_rule: "CHR ''*'' \<notin> set pattern \<Longrightarrow>
   shouldIgnore_loop [pattern] base rel = Some (base = pattern \<or> rel = pattern)"
  by simp

lemma literal_name_ignored: "pattern \<in> set literal_patterns \<Longrightarrow> shouldIgnore (src @ [pattern]) rel"
  by (rule shouldIgnore_name) (simp add: name_ignored_def)

lemma ignored_item_skipped:
  "shouldIgnore (src @ [item]) (path_relative T (src @ [item])) \<Longrightarrow>
     scaffold_items n T src dest (item # items) w = scaffold_items n T src dest items w"
  by (simp add: scaffold_items.simps(2))

lemma written_names_not_ignored:
  assumes "instantScaffold n T src dest w = Some (r, w')"
    and "files w' (dest @ q) \<noteq> files w (dest @ q)"
  shows "\<forall>c \<in> set q. \<not> name_ignored c"
proof -
  from instantScaffold_writes[OF assms(1)] assms(2) have "touched_below dest (dest @ q)"
    by (simp add: writes_below_def)
  then show ?thesis
    unfolding touched_below_def by (auto simp: prefix_def)
qed

lemma shouldIgnore_demo:
  "\<not> shouldIgnore [''basic'', ''a.txt''] (path_relative [''basic''] [''basic'', ''a.txt''])"
  "shouldIgnore [''basic'', ''node_modules''] (path_relative [''basic''] [''basic'', ''node_modules''])"
  "\<not> shouldIgnore [''basic'', ''l''] (path_relative [''basic''] [''basic'', ''l''])"
  "\<not> shouldIgnore [''basic'', ''b''] (path_relative [''basic''] [''basic'', ''b''])"
  by (simp_all add: shouldIgnore_def IGNORE_PATTERNS_def basename_def regex_meta_def
      line_terminator_def path_relative_def)

lemma pathExists_simple:
  "fs_pathExists w p = (case files w p of None \<Rightarrow> False
     | Some (SymbolicLink t) \<Rightarrow> follow (MAXSYMLINKS - 1) (files w) (path_resolve (dirname p) t) \<noteq> None
     | Some _ \<Rightarrow> True)"
  by (simp add: fs_pathExists_def MAXSYMLINKS_def eval_nat_numeral split: option.splits entry.splits)

lemmas demo_eval =
  scaffold_items_Cons scaffold_item_def shouldIgnore_demo fs_readdir_def
  demo_template_def put_entry_def add_name_def dirname_def basename_def pathExists_simple
  path_resolve_def is_absolute_def copy_leaf_def fs_ensureDir_def

lemma demo_run:
  "\<exists>w'. instantScaffold (Suc (Suc 0)) [''basic''] [''basic''] [''work'', ''demo''] demo_template = Some (Returned, w')
     \<and> files w' [''work'', ''demo'', ''a.txt''] = Some (RegularFile (Bytes ''A''))
     \<and> files w' [''work'', ''demo'', ''l''] = Some (RegularFile (Bytes ''A''))
     \<and> files w' [''work'', ''demo'', ''b''] = None"
  by (simp add: demo_eval)

lemma broken_link_item:
  assumes "\<not> shouldIgnore (src @ [item]) (path_relative T (src @ [item]))"
    and "files w (src @ [item]) = Some (SymbolicLink t)"
    and "\<not> fs_pathExists w (path_resolve src t)"
  shows "scaffold_items n T src dest (item # items) w = scaffold_items n T src dest items w"
  using assms by (simp add: scaffold_items_Cons scaffold_item_def)

text \<open>
  C2.  The loop over a single rule without a wildcard answers whether the base name or
  the root-relative path equals the rule.  An entry named like such a rule is ignored
  wherever it is, whatever its relative path.  An ignored entry is passed over by the
  loop, and when no later entry of the directory has its name, nothing is written at
  or below its place in the destination.  In a whole run, no path written below the
  destination has a component named like a rule without a wildcard.
\<close>

theorem ignored_subtree_absent:
  "(CHR ''*'' \<notin> set pattern \<longrightarrow>
      shouldIgnore_loop [pattern] base rel = Some (base = pattern \<or> rel = pattern)) \<and>
   (pattern \<in> set literal_patterns \<longrightarrow> shouldIgnore (src @ [pattern]) rel) \<and>
   (shouldIgnore (src @ [item]) (path_relative T (src @ [item])) \<longrightarrow>
      scaffold_items n T src dest (item # items) w = scaffold_items n T src dest items w \<and>
      (item \<notin> set items \<longrightarrow>
         (\<forall>r w' q. scaffold_items n T src dest (item # items) w = Some (r, w') \<longrightarrow>
            files w' (dest @ item # q) = files w (dest @ item # q)))) \<and>
   (instantScaffold n T src dest w = Some (r, w') \<longrightarrow>
      (\<forall>q. files w' (dest @ q) \<noteq> files w (dest @ q) \<longrightarrow> (\<forall>c \<in> set q. c \<notin> set literal_patterns)))"
proof (intro conjI impI allI)
  assume "CHR ''*'' \<notin> set pattern"
  then show "shouldIgnore_loop [pattern] base rel = Some (base = pattern \<or> rel = pattern)"
    by (rule literal_rule)
next
  assume "pattern \<in> set literal_patterns"
  then show "shouldIgnore (src @ [pattern]) rel" by (rule literal_name_ignored)
next
  assume "shouldIgnore (src @ [item]) (path_relative T (src @ [item]))"
  then show "scaffold_items n T src dest (item # items) w = scaffold_items n T src dest items w"
    by (rule ignored_item_skipped)
next
  fix r w' q
  assume ign: "shouldIgnore (src @ [item]) (path_relative T (src @ [item]))"
    and fresh: "item \<notin> set items"
    and run: "scaffold_items n T src dest (item # items) w = Some (r, w')"
  from run ignored_item_skipped[OF ign] have "scaffold_items n T src dest items w = Some (r, w')"
    by simp
  then show "files w' (dest @ item # q) = files w (dest @ item # q)"
    using fresh by (rule items_leave_other_names)
next
  fix q
  assume "instantScaffold n T src dest w = Some (r, w')"
    and "files w' (dest @ q) \<noteq> files w (dest @ q)"
  then have "\<forall>c \<in> set q. \<not> name_ignored c" by (rule written_names_not_ignored)
  then show "\<forall>c \<in> set q. c \<notin> set literal_patterns"
    by (simp add: name_ignored_def)
qed

theorem ignored_subtree_absent_witness:
  "''node_modules'' \<in> set literal_patterns \<and>
   (\<exists>w'. instantScaffold (Suc (Suc 0)) [''basic''] [''basic''] [''work'', ''demo''] demo_template =
            Some (Returned, w') \<and>
      files w' [''work'', ''demo'', ''a.txt''] = Some (RegularFile (Bytes ''A'')) \<and>
      files w' [''work'', ''demo'', ''node_modules''] = None \<and>
      files w' [''work'', ''demo'', ''node_modules'', ''x''] = None)"
proof -
  have lit: "''node_modules'' \<in> set literal_patterns"
    by (simp add: literal_patterns_def IGNORE_PATTERNS_def)
  from demo_run obtain w' where
    run: "instantScaffold (Suc (Suc 0)) [''basic''] [''basic''] [''work'', ''demo''] demo_template =
            Some (Returned, w')"
    and a: "files w' [''work'', ''demo'', ''a.txt''] = Some (RegularFile (Bytes ''A''))"
    by blast
  have absent: "files w' ([''work'', ''demo''] @ q) = files demo_template ([''work'', ''demo''] @ q)"
    if "''node_modules'' \<in> set q" for q
    using ignored_subtree_absent[where pattern = "''node_modules''" and n = "Suc (Suc 0)"
        and T = "[''basic'']" and src = "[''basic'']" and dest = "[''work'', ''demo'']"
        and w = demo_template and r = Returned and w' = w']
      run lit that by blast
  have "files w' [''work'', ''demo'', ''node_modules''] = None"
    using absent[of "[''node_modules'']"] by (simp add: demo_template_def)
  moreover have "files w' [''work'', ''demo'', ''node_modules'', ''x''] = None"
    using absent[of "[''node_modules'', ''x'']"] by (simp add: demo_template_def)
  ultimately show ?thesis using lit run a by blast
qed

text \<open>
  C3.  A symbolic link that the filter lets through and whose target, resolved from the
  directory that holds the link, does not exist: the loop goes on with the remaining
  entries from the same world, as if the link were not listed, so it raises nothing
  and writes nothing; and when no later entry has the link's name, nothing is at or
  below its place in the destination after the loop that was not there before.
\<close>

theorem broken_link_skipped:
  assumes "\<not> shouldIgnore (src @ [item]) (path_relative T (src @ [item]))"
    and "files w (src @ [item]) = Some (SymbolicLink t)"
    and "\<not> fs_pathExists w (path_resolve src t)"
  shows "scaffold_items n T src dest (item # items) w = scaffold_items n T src dest items w \<and>
         (item \<notin> set items \<longrightarrow>
            (\<forall>r w' q. scaffold_items n T src dest (item # items) w = Some (r, w') \<longrightarrow>
               files w' (dest @ item # q) = files w (dest @ item # q)))"
  using broken_link_item[OF assms] items_leave_other_names by simp

theorem broken_link_skipped_witness:
  "\<exists>w'. scaffold_items (Suc 0) [''basic''] [''basic''] [''work'', ''demo''] [''b'', ''a.txt'']
            (put_entry [''work'', ''demo''] (Directory []) demo_template) = Some (Returned, w') \<and>
      files w' [''work'', ''demo'', ''b''] = None \<and>
      files w' [''work'', ''demo'', ''a.txt''] = Some (RegularFile (Bytes ''A''))"
proof -
  let ?w = "put_entry [''work'', ''demo''] (Directory []) demo_template"
  have h1: "\<not> shouldIgnore ([''basic''] @ [''b'']) (path_relative [''basic''] ([''basic''] @ [''b'']))"
    using shouldIgnore_demo(4) by simp
  have h2: "files ?w ([''basic''] @ [''b'']) = Some (SymbolicLink ''gone'')"
    by (simp add: demo_eval)
  have h3: "\<not> fs_pathExists ?w (path_resolve [''basic''] ''gone'')"
    by (simp add: demo_eval)
  have rest: "\<exists>w'. scaffold_items (Suc 0) [''basic''] [''basic''] [''work'', ''demo''] [''a.txt''] ?w =
                Some (Returned, w') \<and>
              files w' [''work'', ''demo'', ''a.txt''] = Some (RegularFile (Bytes ''A''))"
    by (simp add: demo_eval)
  have fresh: "files ?w ([''work'', ''demo''] @ ''b'' # []) = None"
    by (simp add: demo_eval)
  from broken_link_skipped[OF h1 h2 h3, where n = "Suc 0" and dest = "[''work'', ''demo'']"
      and items = "[''a.txt'']"] rest fresh
  show ?thesis by fastforce
qed













section \<open>The claims about the ignore filter and the configurator\<close>






text \<open>
  C5.  Running the configurator a second time with the same package manager and
  project name, on the world the first run left, gives the outcome and the world of
  the first run: the manifest and the workspace file are as after one run.
\<close>

theorem configure_idempotent:
  "configurePackageManager d k n (snd (configurePackageManager d k n w)) =
     configurePackageManager d k n w"
  by (rule configure_twice)

theorem configure_idempotent_witness:
  "configurePackageManager [''demo''] ''yarn'' ''demo''
     (snd (configurePackageManager [''demo''] ''yarn'' ''demo'' demo_target)) =
   configurePackageManager [''demo''] ''yarn'' ''demo'' demo_target"
  using configure_idempotent [of "[''demo'']" "''yarn''" "''demo''" demo_target] by simp



text \<open>
  C10.  For a package manager string other than \<open>npm\<close> and \<open>yarn\<close> (the manifest
  being a writable regular file holding a JSON object) the configurator returns, the
  manifest has \<open>packageManager = pnpm@9.0.0\<close>, and no other path is touched, so
  \<open>pnpm-workspace.yaml\<close> stays.  Every string without \<open>=\<close> is the package manager of
  a run whose argument is \<open>--package-manager=\<close> followed by it.
\<close>

theorem other_kind_is_pnpm:
  assumes "k \<noteq> ''npm''" and "k \<noteq> ''yarn''"
    and "files w (d @ [''package.json'']) = Some (RegularFile (JsonText (JObj m)))"
    and "d @ [''package.json''] \<notin> denied w"
  shows "(\<exists>w' m'. configurePackageManager d k n w = (Returned, w') \<and>
           files w' (d @ [''package.json'']) = Some (RegularFile (JsonText (JObj m'))) \<and>
           map_of m' ''packageManager'' = Some (JStr ''pnpm@9.0.0'') \<and>
           (\<forall>p. p \<noteq> d @ [''package.json''] \<longrightarrow> files w' p = files w p)) \<and>
         (CHR ''='' \<notin> set k \<and> \<not> is_pm_arg a \<longrightarrow>
            select_packageManager
              \<lparr>argv = [a, ''--package-manager='' @ k], cwd = c, answerName = x,
               answerPackageManager = y\<rparr> = k)"
proof (intro conjI impI)
  show "\<exists>w' m'. configurePackageManager d k n w = (Returned, w') \<and>
           files w' (d @ [''package.json'']) = Some (RegularFile (JsonText (JObj m'))) \<and>
           map_of m' ''packageManager'' = Some (JStr ''pnpm@9.0.0'') \<and>
           (\<forall>p. p \<noteq> d @ [''package.json''] \<longrightarrow> files w' p = files w p)"
    using assms manifest_of_other[of k n m] by (simp add: configure_object_manifest)
next
  assume "CHR ''='' \<notin> set k \<and> \<not> is_pm_arg a"
  then show "select_packageManager
      \<lparr>argv = [a, ''--package-manager='' @ k], cwd = c, answerName = x,
       answerPackageManager = y\<rparr> = k"
    by (intro select_packageManager_value) simp_all
qed

theorem other_kind_is_pnpm_witness:
  "(\<exists>w' m'. configurePackageManager [''demo''] ''bun'' ''demo'' demo_target = (Returned, w') \<and>
      files w' [''demo'', ''package.json''] = Some (RegularFile (JsonText (JObj m'))) \<and>
      map_of m' ''packageManager'' = Some (JStr ''pnpm@9.0.0'') \<and>
      files w' [''demo'', ''pnpm-workspace.yaml''] = Some (RegularFile (Bytes ''packages''))) \<and>
   select_packageManager
     \<lparr>argv = [''demo'', ''--package-manager=bun''], cwd = [''home''], answerName = [],
      answerPackageManager = []\<rparr> = ''bun''"
proof -
  have manifest: "files demo_target ([''demo''] @ [''package.json'']) =
      Some (RegularFile (JsonText (JObj [(''name'', JStr ''template''),
                                         (''packageManager'', JStr ''pnpm@8.0.0'')])))"
    by (simp add: demo_target_def)
  have writable: "[''demo''] @ [''package.json''] \<notin> denied demo_target"
    by (simp add: demo_target_def)
  have ws: "files demo_target [''demo'', ''pnpm-workspace.yaml''] = Some (RegularFile (Bytes ''packages''))"
    by (simp add: demo_target_def)
  have k: "''bun'' \<noteq> ''npm''" "''bun'' \<noteq> ''yarn''" "CHR ''='' \<notin> set ''bun''" "\<not> is_pm_arg ''demo''"
    by (simp_all add: is_pm_arg_def)
  from other_kind_is_pnpm[OF k(1) k(2) manifest writable, of "''demo''" "''demo''" "[''home'']" "[]" "[]"] k ws
  show ?thesis by fastforce
qed

section \<open>The claims about the command\<close>

lemma shouldIgnore_asked:
  "\<not> shouldIgnore [''basic'', ''apps''] (path_relative [''basic''] [''basic'', ''apps''])"
  "\<not> shouldIgnore [''basic'', ''packages''] (path_relative [''basic''] [''basic'', ''packages''])"
  "\<not> shouldIgnore [''basic'', ''package.json''] (path_relative [''basic''] [''basic'', ''package.json''])"
  by (simp_all add: shouldIgnore_def IGNORE_PATTERNS_def basename_def regex_meta_def
      line_terminator_def path_relative_def)

lemmas main_eval =
  main_def main_try_def validateTemplate_def first_arg_or_def select_packageManager_def
  path_join_def pathExists_simple fs_remove_def remove_tree_def del_name_def
  scaffold_items_Cons scaffold_item_def fs_readdir_def put_entry_def add_name_def dirname_def
  basename_def copy_leaf_def fs_ensureDir_def Let_def

text \<open>
  C7, at an input where the code departs from it.  The name is asked for and answered
  \<open>demo\<close>; the materializer fails while writing \<open>demo\<close>.  The handler looks for the
  directory to remove under the first argument or, without one, under \<open>my-app\<close>:
  the run exits with code 1, the partly written \<open>demo\<close> stays, and the unrelated
  directory \<open>my-app\<close> of the working directory is removed.
\<close>

theorem cleanup_misses_asked_name:
  "\<exists>w'. main (Suc (Suc (Suc 0))) [''basic''] asked_run asked_world = Some (1, w') \<and>
      files w' [''work'', ''demo''] = Some (Directory [''apps'']) \<and>
      files w' [''work'', ''demo'', ''apps''] = Some (Directory []) \<and>
      files w' [''work'', ''my-app''] = None \<and>
      files w' [''work'', ''my-app'', ''notes.txt''] = None"
  by (simp add: main_eval shouldIgnore_asked asked_run_def asked_world_def)

text \<open>
  C8, at an input where the code departs from it.  The target directory \<open>demo\<close>
  exists and the template lacks \<open>apps\<close>: the validation raises before the check for
  an existing target is reached, and the handler removes the directory that was there
  before the run, with what it holds.  The exit code is 1.
\<close>

theorem cleanup_removes_existing_target:
  "\<exists>w'. main n [''basic''] existing_run existing_world = Some (1, w') \<and>
      files existing_world [''work'', ''demo'', ''keep.txt''] = Some (RegularFile (Bytes ''mine'')) \<and>
      files w' [''work'', ''demo''] = None \<and>
      files w' [''work'', ''demo'', ''keep.txt''] = None"
  by (simp add: main_eval existing_run_def existing_world_def)

text \<open>With a valid template the check is reached: the run exits with code 1 and
  leaves the world as it was.\<close>

lemma refuses_existing_target:
  assumes "''--help'' \<notin> set (argv cmd)" "''-h'' \<notin> set (argv cmd)"
    and "validateTemplate T w = Inr ()"
    and "fs_pathExists w (path_join (cwd cmd) (first_arg_or (argv cmd) (answerName cmd)))"
  shows "main n T cmd w = Some (1, w)"
  using assms by (simp add: main_def main_try_def)

text \<open>When the name is the first argument and the \<open>try\<close> block raises, the handler
  looks at the directory that was being written: the run exits with code 1 whether
  or not the removal succeeds, and when the directory exists and may be removed,
  nothing is left at or below it.\<close>

lemma cleanup_removes_named_target:
  assumes "''--help'' \<notin> set (argv cmd)" "''-h'' \<notin> set (argv cmd)"
    and "argv cmd = a # rest" and "a \<noteq> []"
    and "main_try n T cmd w = Some (Raised e, w1)"
  shows "\<exists>w2. main n T cmd w = Some (1, w2) \<and>
           (fs_pathExists w1 (path_join (cwd cmd) a) \<and> path_join (cwd cmd) a \<notin> denied w1 \<longrightarrow>
              (\<forall>q. files w2 (path_join (cwd cmd) a @ q) = None))"
proof (cases "fs_pathExists w1 (path_join (cwd cmd) a) \<and> path_join (cwd cmd) a \<notin> denied w1")
  case True
  then obtain en where "files w1 (path_join (cwd cmd) a) = Some en"
    using pathExists_present by blast
  with True assms show ?thesis
    by (simp add: main_def first_arg_or_def fs_remove_def remove_tree_below Let_def)
next
  case False
  with assms show ?thesis
    by (auto simp: main_def first_arg_or_def fs_remove_def Let_def split: sum.splits)
qed

end
